theory Spec2Isabelle
  imports Main "HOL-Library.Word"
begin

section \<open>Data model of the rate limiter\<close>

text \<open>
  Go's \<open>int\<close> is taken at its 64-bit width (amd64, arm64): \<open>+\<close>, \<open>-\<close> and \<open>*\<close> wrap,
  \<open>sint\<close> reads the signed value. \<open>time.Duration\<close> is an \<open>int64\<close> count of
  nanoseconds.
\<close>

type_synonym go_int = "64 word"
type_synonym duration = "64 word"

text \<open>The two constant errors of the package.\<close>

datatype rateLimitError = ErrTooManyRequests | ErrClientMapExists

text \<open>
  A call that does not return to its caller: it waits forever on a lock or a channel
  (\<open>Blocked\<close>), or the runtime aborts the process (\<open>Panicked\<close>).
\<close>

datatype fault = Blocked | Panicked

text \<open>
  The struct \<open>Limiter\<close>. The embedded \<open>sync.Mutex\<close> is the flag \<open>mutexLocked\<close>.
  The field \<open>doneChan\<close> is an unbuffered channel: it never holds a value, a send on it
  completes only together with a receive, so it contributes no field here and its
  rendezvous is part of \<open>Shutdown\<close> below.
\<close>

record Limiter =
  mutexLocked :: bool
  usedRequests :: go_int
  allowedRequests :: go_int
  timeframeInterval :: duration

subsection \<open>The mutex\<close>

text \<open>
  \<open>Lock\<close> on a held mutex waits; with nobody to release it, it waits forever.
  \<open>Unlock\<close> of a mutex that is not held is a fatal runtime error.
\<close>

definition Lock :: "Limiter \<Rightarrow> fault + Limiter" where
  "Lock l = (if mutexLocked l then Inl Blocked else Inr (l\<lparr>mutexLocked := True\<rparr>))"

definition Unlock :: "Limiter \<Rightarrow> fault + Limiter" where
  "Unlock l = (if mutexLocked l then Inr (l\<lparr>mutexLocked := False\<rparr>) else Inl Panicked)"

subsection \<open>Queries\<close>

definition GetRequestsAvailable :: "Limiter \<Rightarrow> go_int" where
  "GetRequestsAvailable l = allowedRequests l - usedRequests l"

definition GetRequestLimit :: "Limiter \<Rightarrow> go_int" where
  "GetRequestLimit l = allowedRequests l"

definition GetTimeframeInterval :: "Limiter \<Rightarrow> duration" where
  "GetTimeframeInterval l = timeframeInterval l"

subsection \<open>Mutations\<close>

text \<open>
  \<open>IncrementRequestsUsed\<close>: the comparison is made first, outside the lock; only the
  increment is between \<open>Lock\<close> and \<open>Unlock\<close>. The result is Go's \<open>error\<close> return
  (\<open>None\<close> is \<open>nil\<close>) together with the struct after the call.
\<close>

definition IncrementRequestsUsed :: "Limiter \<Rightarrow> fault + (rateLimitError option \<times> Limiter)" where
  "IncrementRequestsUsed l =
     (if usedRequests l = allowedRequests l then Inr (Some ErrTooManyRequests, l)
      else case Lock l of
             Inl f \<Rightarrow> Inl f
           | Inr l1 \<Rightarrow>
               (case Unlock (l1\<lparr>usedRequests := usedRequests l1 + 1\<rparr>) of
                  Inl f \<Rightarrow> Inl f
                | Inr l2 \<Rightarrow> Inr (None, l2)))"

definition Clear :: "Limiter \<Rightarrow> fault + Limiter" where
  "Clear l =
     (case Lock l of
        Inl f \<Rightarrow> Inl f
      | Inr l1 \<Rightarrow> Unlock (l1\<lparr>usedRequests := 0\<rparr>))"

subsection \<open>Call sequences of one caller\<close>

datatype call = CallIncrement | CallClear

fun invoke :: "call \<Rightarrow> Limiter \<Rightarrow> fault + (rateLimitError option \<times> Limiter)" where
  "invoke CallIncrement l = IncrementRequestsUsed l"
| "invoke CallClear l = (case Clear l of Inl f \<Rightarrow> Inl f | Inr l' \<Rightarrow> Inr (None, l'))"

text \<open>A caller that goes on after an error return, as a Go caller that reads \<open>err\<close> may.\<close>

fun run_calls :: "call list \<Rightarrow> Limiter \<Rightarrow> fault + Limiter" where
  "run_calls [] l = Inr l"
| "run_calls (c # cs) l =
     (case invoke c l of Inl f \<Rightarrow> Inl f | Inr (e, l') \<Rightarrow> run_calls cs l')"

text \<open>\<open>k\<close> calls of \<open>IncrementRequestsUsed\<close> in a row, with the list of their returns.\<close>

fun increments :: "nat \<Rightarrow> Limiter \<Rightarrow> fault + (rateLimitError option list \<times> Limiter)" where
  "increments 0 l = Inr ([], l)"
| "increments (Suc k) l =
     (case IncrementRequestsUsed l of
        Inl f \<Rightarrow> Inl f
      | Inr (e, l') \<Rightarrow>
          (case increments k l' of
             Inl f \<Rightarrow> Inl f
           | Inr (es, l'') \<Rightarrow> Inr (e # es, l'')))"

section \<open>The window goroutine\<close>

text \<open>
  \<open>time.NewTicker\<close> belongs to Go's standard library; its documented contract is that
  the duration must be greater than zero and that it panics otherwise.
\<close>

datatype ticker = Ticker duration

definition NewTicker :: "duration \<Rightarrow> fault + ticker" where
  "NewTicker d = (if sint d \<le> 0 then Inl Panicked else Inr (Ticker d))"

definition Millisecond :: duration where
  "Millisecond = 1000000"

text \<open>
  The goroutine running \<open>startWindow\<close> is either inside its \<open>select\<close> loop with a live
  ticker, or it has returned.
\<close>

datatype goroutine = Selecting ticker | Returned

record LimiterSys =
  limiter :: Limiter
  scheduler :: goroutine

text \<open>The first statement of \<open>startWindow\<close>: the ticker is created, then the loop is entered.\<close>

definition startWindow_enter :: "Limiter \<Rightarrow> fault + goroutine" where
  "startWindow_enter l =
     (case NewTicker (timeframeInterval l) of
        Inl f \<Rightarrow> Inl f
      | Inr tk \<Rightarrow> Inr (Selecting tk))"

text \<open>
  One period of the ticker goes by. Inside the loop the case \<open><-ticker.C\<close> fires and calls
  \<open>Clear\<close>; a goroutine that has returned has stopped its ticker and does nothing.
\<close>

definition window_elapses :: "LimiterSys \<Rightarrow> fault + LimiterSys" where
  "window_elapses s =
     (case scheduler s of
        Selecting tk \<Rightarrow>
          (case Clear (limiter s) of
             Inl f \<Rightarrow> Inl f
           | Inr l' \<Rightarrow> Inr (s\<lparr>limiter := l'\<rparr>))
      | Returned \<Rightarrow> Inr s)"

fun windows_elapse :: "nat \<Rightarrow> LimiterSys \<Rightarrow> fault + LimiterSys" where
  "windows_elapse 0 s = Inr s"
| "windows_elapse (Suc k) s =
     (case window_elapses s of Inl f \<Rightarrow> Inl f | Inr s' \<Rightarrow> windows_elapse k s')"

text \<open>
  \<open>Shutdown\<close> sends on \<open>doneChan\<close>. The send completes when the loop takes the case
  \<open><-l.doneChan\<close>, stops the ticker and returns; when the goroutine has already returned
  nobody receives and the sender waits forever.
\<close>

definition Shutdown :: "LimiterSys \<Rightarrow> fault + LimiterSys" where
  "Shutdown s =
     (case scheduler s of
        Selecting tk \<Rightarrow> Inr (s\<lparr>scheduler := Returned\<rparr>)
      | Returned \<Rightarrow> Inl Blocked)"

text \<open>
  \<open>NewLimiter\<close> builds the struct and starts the goroutine. A panic in the goroutine
  aborts the whole process, so it is the outcome of the construction.
\<close>

definition NewLimiter :: "go_int \<Rightarrow> go_int \<Rightarrow> fault + LimiterSys" where
  "NewLimiter allowed timeframeMilliseconds =
     (let l = \<lparr>mutexLocked = False,
               usedRequests = 0,
               allowedRequests = allowed,
               timeframeInterval = timeframeMilliseconds * Millisecond\<rparr>
      in case startWindow_enter l of
           Inl f \<Rightarrow> Inl f
         | Inr g \<Rightarrow> Inr \<lparr>limiter = l, scheduler = g\<rparr>)"

text \<open>A method call on the limiter of a running system.\<close>

definition sys_invoke :: "call \<Rightarrow> LimiterSys \<Rightarrow> fault + (rateLimitError option \<times> LimiterSys)" where
  "sys_invoke c s =
     (case invoke c (limiter s) of
        Inl f \<Rightarrow> Inl f
      | Inr (e, l') \<Rightarrow> Inr (e, s\<lparr>limiter := l'\<rparr>))"

section \<open>Concurrent callers of IncrementRequestsUsed\<close>

text \<open>
  Each caller is at one statement of \<open>IncrementRequestsUsed\<close>: the comparison, \<open>l.Lock()\<close>,
  \<open>l.usedRequests++\<close>, \<open>l.Unlock()\<close>, or it has returned. A schedule names the caller
  that runs the next statement. A step is \<open>None\<close> when that caller cannot move: it waits
  for the mutex, it has returned, or it does not exist.
\<close>

datatype pc = AtCheck | AtLock | AtIncrement | AtUnlock | Finished "rateLimitError option"

record Concurrent =
  shared :: Limiter
  callers :: "pc list"

definition caller_step :: "nat \<Rightarrow> Concurrent \<Rightarrow> Concurrent option" where
  "caller_step i c =
     (if length (callers c) \<le> i then None
      else case callers c ! i of
        AtCheck \<Rightarrow>
          (if usedRequests (shared c) = allowedRequests (shared c)
           then Some (c\<lparr>callers := (callers c)[i := Finished (Some ErrTooManyRequests)]\<rparr>)
           else Some (c\<lparr>callers := (callers c)[i := AtLock]\<rparr>))
      | AtLock \<Rightarrow>
          (case Lock (shared c) of
             Inl f \<Rightarrow> None
           | Inr l \<Rightarrow> Some (c\<lparr>shared := l, callers := (callers c)[i := AtIncrement]\<rparr>))
      | AtIncrement \<Rightarrow>
          Some (c\<lparr>shared := (shared c)\<lparr>usedRequests := usedRequests (shared c) + 1\<rparr>,
                  callers := (callers c)[i := AtUnlock]\<rparr>)
      | AtUnlock \<Rightarrow>
          (case Unlock (shared c) of
             Inl f \<Rightarrow> None
           | Inr l \<Rightarrow> Some (c\<lparr>shared := l, callers := (callers c)[i := Finished None]\<rparr>))
      | Finished e \<Rightarrow> None)"

fun run_schedule :: "nat list \<Rightarrow> Concurrent \<Rightarrow> Concurrent option" where
  "run_schedule [] c = Some c"
| "run_schedule (i # is) c =
     (case caller_step i c of None \<Rightarrow> None | Some c' \<Rightarrow> run_schedule is c')"

section \<open>The client registry\<close>

text \<open>
  The package variable \<open>clientRateLimiterMap\<close>: \<open>None\<close> is the nil map, \<open>Some m\<close> a map
  made by \<open>make\<close>. The function takes the variable and returns the error and the variable.
\<close>

type_synonym registry = "(string \<rightharpoonup> Limiter) option"

definition InitClientRateLimiterMap :: "registry \<Rightarrow> rateLimitError option \<times> registry" where
  "InitClientRateLimiterMap clientRateLimiterMap =
     (case clientRateLimiterMap of
        Some m \<Rightarrow> (Some ErrClientMapExists, clientRateLimiterMap)
      | None \<Rightarrow> (None, Some Map.empty))"

text \<open>The two-value index expression \<open>m[k]\<close>; on the nil map every key is absent.\<close>

definition map_index :: "registry \<Rightarrow> string \<Rightarrow> Limiter option" where
  "map_index clientRateLimiterMap k =
     (case clientRateLimiterMap of None \<Rightarrow> None | Some m \<Rightarrow> m k)"

section \<open>The HTTP handler\<close>

definition HttpBadRequest :: string where
  "HttpBadRequest = ''Bad Request''"

definition HttpNotFound :: string where
  "HttpNotFound = ''Not Found''"

definition HttpInternalError :: string where
  "HttpInternalError = ''Internal Server Error''"

definition StatusOK :: nat where
  "StatusOK = 200"

definition StatusBadRequest :: nat where
  "StatusBadRequest = 400"

definition StatusNotFound :: nat where
  "StatusNotFound = 404"

definition StatusInternalServerError :: nat where
  "StatusInternalServerError = 500"

record AvailableRequestsResponse =
  Limit :: go_int
  Available :: go_int
  Timeframe :: duration

text \<open>
  The encoded value, as a JSON syntax tree. \<open>json.Marshal\<close> of this struct writes one
  object whose members are named by the struct tags, each a signed decimal number
  (a \<open>time.Duration\<close> is encoded as its \<open>int64\<close>); it has no failing case for it.
\<close>

datatype json = JNumber int | JObject "(string \<times> json) list"

definition json_Marshal :: "AvailableRequestsResponse \<Rightarrow> string + json" where
  "json_Marshal r =
     Inr (JObject [(''limit'', JNumber (sint (Limit r))),
                   (''available'', JNumber (sint (Available r))),
                   (''timeframe'', JNumber (sint (Timeframe r)))])"

text \<open>
  What the response writer receives. \<open>http.Error(w, msg, code)\<close> of \<open>net/http\<close> sets
  the status \<open>code\<close> and writes \<open>msg\<close> with \<open>fmt.Fprintln\<close>, so the body is the
  message followed by a newline. \<open>w.Write(bytes)\<close> with no status set before is status
  200 with those bytes as the body. Headers are left out.
\<close>

datatype body = Text string | Encoded json

record response =
  status :: nat
  body :: body

definition http_Error :: "string \<Rightarrow> nat \<Rightarrow> response" where
  "http_Error msg code = \<lparr>status = code, body = Text (msg @ [CHR 0x0A])\<rparr>"

text \<open>
  \<open>getAvailableRequests\<close>, as a function of the registry and of \<open>mux.Vars(r)\<close>, the
  route variables of the request.
\<close>

definition getAvailableRequests :: "registry \<Rightarrow> (string \<rightharpoonup> string) \<Rightarrow> response" where
  "getAvailableRequests clientRateLimiterMap vars =
     (case vars ''clientId'' of
        None \<Rightarrow> http_Error HttpBadRequest StatusBadRequest
      | Some clientId \<Rightarrow>
          (if clientId = '''' then http_Error HttpBadRequest StatusBadRequest
           else (case map_index clientRateLimiterMap clientId of
             None \<Rightarrow> http_Error HttpNotFound StatusNotFound
           | Some clientRateLimiter \<Rightarrow>
               (let returnData = \<lparr>Limit = GetRequestLimit clientRateLimiter,
                                  Available = GetRequestsAvailable clientRateLimiter,
                                  Timeframe = GetTimeframeInterval clientRateLimiter\<rparr>
                in (case json_Marshal returnData of
                      Inl err \<Rightarrow> http_Error HttpInternalError StatusInternalServerError
                    | Inr returnBytes \<Rightarrow> \<lparr>status = StatusOK, body = Encoded returnBytes\<rparr>)))))"

section \<open>The quota invariant\<close>

text \<open>
  The state between two calls of one caller: the mutex is free and the counter, read as
  a signed number, lies between zero and the quota.
\<close>

definition within_quota :: "Limiter \<Rightarrow> bool" where
  "within_quota l \<longleftrightarrow>
     \<not> mutexLocked l \<and> 0 \<le> sint (usedRequests l) \<and> sint (usedRequests l) \<le> sint (allowedRequests l)"

section \<open>Basic facts\<close>

lemma Clear_free: "\<not> mutexLocked l \<Longrightarrow> Clear l = Inr (l\<lparr>usedRequests := 0\<rparr>)"
  by (simp add: Clear_def Lock_def Unlock_def)

lemma Clear_held: "mutexLocked l \<Longrightarrow> Clear l = Inl Blocked"
  by (simp add: Clear_def Lock_def)

lemma Increment_exhausted:
  "usedRequests l = allowedRequests l \<Longrightarrow> IncrementRequestsUsed l = Inr (Some ErrTooManyRequests, l)"
  by (simp add: IncrementRequestsUsed_def)

lemma Increment_free:
  "usedRequests l \<noteq> allowedRequests l \<Longrightarrow> \<not> mutexLocked l \<Longrightarrow>
   IncrementRequestsUsed l = Inr (None, l\<lparr>usedRequests := usedRequests l + 1\<rparr>)"
  by (simp add: IncrementRequestsUsed_def Lock_def Unlock_def)

lemma Increment_held:
  "usedRequests l \<noteq> allowedRequests l \<Longrightarrow> mutexLocked l \<Longrightarrow> IncrementRequestsUsed l = Inl Blocked"
  by (simp add: IncrementRequestsUsed_def Lock_def)

subsection \<open>Signed 64-bit arithmetic without overflow\<close>

lemma sint_succ: "sint (x::go_int) < sint (y::go_int) \<Longrightarrow> sint (x + 1) = sint x + 1"
proof -
  assume a: "sint x < sint y"
  have "sint y < 2 ^ 63" using sint_lt [of y] by simp
  moreover have "- (2 ^ 63) \<le> sint x" using sint_ge [of x] by simp
  ultimately show ?thesis using a
    by (simp add: sint_word_ariths signed_take_bit_int_eq_self)
qed

lemma sint_diff:
  "0 \<le> sint (u::go_int) \<Longrightarrow> sint u \<le> sint (a::go_int) \<Longrightarrow> sint (a - u) = sint a - sint u"
proof -
  assume a: "0 \<le> sint u" "sint u \<le> sint a"
  have "sint a < 2 ^ 63" using sint_lt [of a] by simp
  then show ?thesis using a
    by (simp add: sint_word_ariths signed_take_bit_int_eq_self)
qed

lemma sint_ms:
  "- 9223372036854 \<le> sint (t::go_int) \<Longrightarrow> sint t \<le> 9223372036854 \<Longrightarrow>
   sint (t * Millisecond) = sint t * 1000000"
  by (simp add: Millisecond_def sint_word_ariths signed_take_bit_int_eq_self)

subsection \<open>Construction\<close>

lemma NewLimiter_Inr:
  "NewLimiter n t = Inr s \<Longrightarrow>
   limiter s = \<lparr>mutexLocked = False, usedRequests = 0, allowedRequests = n,
                timeframeInterval = t * Millisecond\<rparr>
   \<and> scheduler s = Selecting (Ticker (t * Millisecond))"
  by (auto simp: NewLimiter_def startWindow_enter_def NewTicker_def Let_def split: if_splits)

lemma NewLimiter_3_3:
  "NewLimiter 3 3 =
     Inr \<lparr>limiter = \<lparr>mutexLocked = False, usedRequests = 0, allowedRequests = 3,
                       timeframeInterval = 3000000\<rparr>,
          scheduler = Selecting (Ticker 3000000)\<rparr>"
  by (simp add: NewLimiter_def startWindow_enter_def NewTicker_def Millisecond_def)

section \<open>The invariant over call sequences\<close>

lemma invoke_within_quota:
  assumes "within_quota l"
  shows "\<exists>e l'. invoke c l = Inr (e, l') \<and> within_quota l' \<and> allowedRequests l' = allowedRequests l"
proof (cases c)
  case CallClear
  with assms show ?thesis by (simp add: within_quota_def Clear_free)
next
  case CallIncrement
  show ?thesis
  proof (cases "usedRequests l = allowedRequests l")
    case True
    with assms CallIncrement show ?thesis by (simp add: Increment_exhausted)
  next
    case False
    with assms have lt: "sint (usedRequests l) < sint (allowedRequests l)"
      by (auto simp: within_quota_def order_less_le dest: signed_word_eqI)
    from sint_succ [OF lt] lt assms False CallIncrement show ?thesis
      by (simp add: within_quota_def Increment_free)
  qed
qed

lemma run_calls_within_quota:
  "within_quota l \<Longrightarrow>
   \<exists>l'. run_calls cs l = Inr l' \<and> within_quota l' \<and> allowedRequests l' = allowedRequests l"
proof (induction cs arbitrary: l)
  case Nil
  then show ?case by simp
next
  case (Cons c cs)
  from invoke_within_quota [OF Cons.prems, of c] obtain e l1
    where 1: "invoke c l = Inr (e, l1)" "within_quota l1" "allowedRequests l1 = allowedRequests l"
    by blast
  from Cons.IH [OF 1(2)] 1 show ?case by auto
qed

text \<open>
  Claim C1. A limiter built by \<open>NewLimiter\<close> with a quota \<open>n \<ge> 0\<close>: every sequence of
  \<open>IncrementRequestsUsed\<close> and \<open>Clear\<close> calls runs to its end, and in the state it
  reaches \<open>0 \<le> usedRequests \<le> allowedRequests\<close> and
  \<open>0 \<le> GetRequestsAvailable() \<le> GetRequestLimit()\<close>, all read as signed numbers.
\<close>

theorem limiter_invariant_reachable:
  assumes "NewLimiter n t = Inr s" and "0 \<le> sint n"
  shows "\<exists>l. run_calls cs (limiter s) = Inr l
           \<and> 0 \<le> sint (usedRequests l) \<and> sint (usedRequests l) \<le> sint (allowedRequests l)
           \<and> 0 \<le> sint (GetRequestsAvailable l)
           \<and> sint (GetRequestsAvailable l) \<le> sint (GetRequestLimit l)"
proof -
  from NewLimiter_Inr [OF assms(1)] assms(2) have "within_quota (limiter s)"
    by (simp add: within_quota_def)
  from run_calls_within_quota [OF this, of cs] obtain l
    where l: "run_calls cs (limiter s) = Inr l" "within_quota l" by blast
  from l(2) have "sint (GetRequestsAvailable l) = sint (allowedRequests l) - sint (usedRequests l)"
    by (simp add: within_quota_def GetRequestsAvailable_def sint_diff)
  with l show ?thesis by (auto simp: within_quota_def GetRequestLimit_def)
qed

theorem limiter_invariant_reachable_witness:
  "NewLimiter 3 3 =
     Inr \<lparr>limiter = \<lparr>mutexLocked = False, usedRequests = 0, allowedRequests = 3,
                       timeframeInterval = 3000000\<rparr>,
          scheduler = Selecting (Ticker 3000000)\<rparr>
   \<and> 0 \<le> sint (3 :: go_int)
   \<and> (\<exists>l. run_calls [CallIncrement, CallIncrement, CallClear, CallIncrement,
                      CallIncrement, CallIncrement, CallIncrement]
             \<lparr>mutexLocked = False, usedRequests = 0, allowedRequests = 3,
              timeframeInterval = 3000000\<rparr> = Inr l
           \<and> 0 \<le> sint (usedRequests l) \<and> sint (usedRequests l) \<le> sint (allowedRequests l)
           \<and> 0 \<le> sint (GetRequestsAvailable l)
           \<and> sint (GetRequestsAvailable l) \<le> sint (GetRequestLimit l))"
proof -
  have a: "(0::int) \<le> sint (3 :: go_int)" by simp
  from limiter_invariant_reachable [OF NewLimiter_3_3 a,
      of "[CallIncrement, CallIncrement, CallClear, CallIncrement,
           CallIncrement, CallIncrement, CallIncrement]"] NewLimiter_3_3 a
  show ?thesis by simp
qed

section \<open>Consuming the whole quota\<close>

lemma increments_up_to_quota:
  "\<not> mutexLocked l \<Longrightarrow> sint (usedRequests l) + int k = sint (allowedRequests l) \<Longrightarrow>
   increments k l = Inr (replicate k None, l\<lparr>usedRequests := allowedRequests l\<rparr>)"
proof (induction k arbitrary: l)
  case 0
  then have "usedRequests l = allowedRequests l" by (simp add: signed_word_eqI)
  then have "l\<lparr>usedRequests := allowedRequests l\<rparr> = l" by (metis Limiter.surjective Limiter.update_convs(2))
  then show ?case by simp
next
  case (Suc k)
  from Suc.prems have lt: "sint (usedRequests l) < sint (allowedRequests l)" by simp
  then have ne: "usedRequests l \<noteq> allowedRequests l" by auto
  let ?l1 = "l\<lparr>usedRequests := usedRequests l + 1\<rparr>"
  have step: "IncrementRequestsUsed l = Inr (None, ?l1)"
    using ne Suc.prems(1) by (rule Increment_free)
  have "increments k ?l1 = Inr (replicate k None, ?l1\<lparr>usedRequests := allowedRequests ?l1\<rparr>)"
    using Suc.prems sint_succ [OF lt] by (intro Suc.IH) simp_all
  with step show ?case by simp
qed

text \<open>
  Claim C2. A limiter built by \<open>NewLimiter\<close> with a quota \<open>n \<ge> 0\<close>: \<open>n\<close> calls of
  \<open>IncrementRequestsUsed\<close> in a row all return \<open>nil\<close>; after them
  \<open>GetRequestsAvailable()\<close> is 0 and the next call returns \<open>ErrTooManyRequests\<close>.
\<close>

theorem quota_exactly_n_increments:
  assumes "NewLimiter n t = Inr s" and "0 \<le> sint n"
  shows "\<exists>l. increments (nat (sint n)) (limiter s) = Inr (replicate (nat (sint n)) None, l)
           \<and> GetRequestsAvailable l = 0
           \<and> IncrementRequestsUsed l = Inr (Some ErrTooManyRequests, l)"
proof -
  let ?l = "limiter s"
  from NewLimiter_Inr [OF assms(1)]
  have l: "\<not> mutexLocked ?l" "allowedRequests ?l = n" "usedRequests ?l = 0" by simp_all
  with assms(2) have "sint (usedRequests ?l) + int (nat (sint n)) = sint (allowedRequests ?l)" by simp
  from increments_up_to_quota [OF l(1) this] l(2)
  have "increments (nat (sint n)) ?l = Inr (replicate (nat (sint n)) None, ?l\<lparr>usedRequests := n\<rparr>)"
    by simp
  moreover have "GetRequestsAvailable (?l\<lparr>usedRequests := n\<rparr>) = 0"
    using \<open>allowedRequests ?l = n\<close> by (simp add: GetRequestsAvailable_def)
  moreover have "IncrementRequestsUsed (?l\<lparr>usedRequests := n\<rparr>) = Inr (Some ErrTooManyRequests, ?l\<lparr>usedRequests := n\<rparr>)"
    using \<open>allowedRequests ?l = n\<close> by (simp add: Increment_exhausted)
  ultimately show ?thesis by blast
qed

theorem quota_exactly_n_increments_witness:
  "NewLimiter 3 3 =
     Inr \<lparr>limiter = \<lparr>mutexLocked = False, usedRequests = 0, allowedRequests = 3,
                       timeframeInterval = 3000000\<rparr>,
          scheduler = Selecting (Ticker 3000000)\<rparr>
   \<and> 0 \<le> sint (3 :: go_int)
   \<and> (\<exists>l. increments 3 \<lparr>mutexLocked = False, usedRequests = 0, allowedRequests = 3,
                          timeframeInterval = 3000000\<rparr> = Inr ([None, None, None], l)
           \<and> GetRequestsAvailable l = 0
           \<and> IncrementRequestsUsed l = Inr (Some ErrTooManyRequests, l))"
proof -
  have a: "(0::int) \<le> sint (3 :: go_int)" by simp
  have r: "replicate 3 None = [None, None, None :: rateLimitError option]"
    by (simp add: numeral_3_eq_3)
  from quota_exactly_n_increments [OF NewLimiter_3_3 a] NewLimiter_3_3 a r
  show ?thesis by simp
qed

section \<open>One call of IncrementRequestsUsed\<close>

text \<open>
  Claim C3. The code does not do what the claim says in states beyond the quota.
  \<open>NewLimiter(-1, 1)\<close> returns a limiter with \<open>GetRequestsAvailable() = -1\<close>: nothing
  is left of the quota, yet \<open>IncrementRequestsUsed\<close> returns \<open>nil\<close> and counts the
  request. It does the same with \<open>usedRequests = 7\<close> and \<open>allowedRequests = 3\<close>. After
  \<open>NewLimiter(-9223372036854775808, 1)\<close> a call that returns \<open>nil\<close> takes
  \<open>GetRequestsAvailable()\<close> from the least \<open>int\<close> up to the largest.
\<close>

theorem increment_succeeds_over_quota:
  "NewLimiter (- 1) 1 =
     Inr \<lparr>limiter = \<lparr>mutexLocked = False, usedRequests = 0, allowedRequests = - 1,
                       timeframeInterval = 1000000\<rparr>,
          scheduler = Selecting (Ticker 1000000)\<rparr>
   \<and> sint (GetRequestsAvailable \<lparr>mutexLocked = False, usedRequests = 0, allowedRequests = - 1,
                                  timeframeInterval = 1000000\<rparr>) = - 1
   \<and> IncrementRequestsUsed \<lparr>mutexLocked = False, usedRequests = 0, allowedRequests = - 1,
                             timeframeInterval = 1000000\<rparr>
       = Inr (None, \<lparr>mutexLocked = False, usedRequests = 1, allowedRequests = - 1,
                     timeframeInterval = 1000000\<rparr>)
   \<and> sint (GetRequestsAvailable \<lparr>mutexLocked = False, usedRequests = 7, allowedRequests = 3,
                                  timeframeInterval = 3000000\<rparr>) = - 4
   \<and> IncrementRequestsUsed \<lparr>mutexLocked = False, usedRequests = 7, allowedRequests = 3,
                             timeframeInterval = 3000000\<rparr>
       = Inr (None, \<lparr>mutexLocked = False, usedRequests = 8, allowedRequests = 3,
                     timeframeInterval = 3000000\<rparr>)
   \<and> NewLimiter (- 9223372036854775808) 1 =
     Inr \<lparr>limiter = \<lparr>mutexLocked = False, usedRequests = 0,
                       allowedRequests = - 9223372036854775808,
                       timeframeInterval = 1000000\<rparr>,
          scheduler = Selecting (Ticker 1000000)\<rparr>
   \<and> sint (GetRequestsAvailable \<lparr>mutexLocked = False, usedRequests = 0,
                                  allowedRequests = - 9223372036854775808,
                                  timeframeInterval = 1000000\<rparr>) = - 9223372036854775808
   \<and> IncrementRequestsUsed \<lparr>mutexLocked = False, usedRequests = 0,
                             allowedRequests = - 9223372036854775808,
                             timeframeInterval = 1000000\<rparr>
       = Inr (None, \<lparr>mutexLocked = False, usedRequests = 1,
                     allowedRequests = - 9223372036854775808,
                     timeframeInterval = 1000000\<rparr>)
   \<and> sint (GetRequestsAvailable \<lparr>mutexLocked = False, usedRequests = 1,
                                  allowedRequests = - 9223372036854775808,
                                  timeframeInterval = 1000000\<rparr>) = 9223372036854775807"
  by (simp add: NewLimiter_def startWindow_enter_def NewTicker_def Millisecond_def
      GetRequestsAvailable_def IncrementRequestsUsed_def Lock_def Unlock_def)

section \<open>Clear\<close>

text \<open>
  Claim C5. A call of \<open>Clear\<close> that finds the mutex free returns; after it
  \<open>usedRequests\<close> is 0 and \<open>GetRequestsAvailable()\<close> equals \<open>GetRequestLimit()\<close>,
  whatever \<open>usedRequests\<close> was; \<open>allowedRequests\<close> and \<open>timeframeInterval\<close> are
  unchanged.
\<close>

theorem Clear_resets_usage:
  assumes "\<not> mutexLocked l"
  shows "\<exists>l'. Clear l = Inr l'
           \<and> usedRequests l' = 0
           \<and> GetRequestsAvailable l' = GetRequestLimit l'
           \<and> GetRequestLimit l' = GetRequestLimit l
           \<and> allowedRequests l' = allowedRequests l
           \<and> timeframeInterval l' = timeframeInterval l
           \<and> mutexLocked l' = mutexLocked l"
  using assms by (simp add: Clear_free GetRequestsAvailable_def GetRequestLimit_def)

theorem Clear_resets_usage_witness:
  "\<not> mutexLocked \<lparr>mutexLocked = False, usedRequests = 7, allowedRequests = 3, timeframeInterval = 5\<rparr>
   \<and> Clear \<lparr>mutexLocked = False, usedRequests = 7, allowedRequests = 3, timeframeInterval = 5\<rparr>
      = Inr \<lparr>mutexLocked = False, usedRequests = 0, allowedRequests = 3, timeframeInterval = 5\<rparr>
   \<and> GetRequestsAvailable \<lparr>mutexLocked = False, usedRequests = 0, allowedRequests = 3, timeframeInterval = 5\<rparr> = 3"
proof -
  let ?l = "\<lparr>mutexLocked = False, usedRequests = 7, allowedRequests = 3, timeframeInterval = 5\<rparr>"
  have a: "\<not> mutexLocked ?l" by simp
  from Clear_resets_usage [OF a] obtain l' where l': "Clear ?l = Inr l'" "usedRequests l' = 0"
    "allowedRequests l' = allowedRequests ?l" "timeframeInterval l' = timeframeInterval ?l"
    "mutexLocked l' = mutexLocked ?l" "GetRequestsAvailable l' = GetRequestLimit l'"
    "GetRequestLimit l' = GetRequestLimit ?l"
    by blast
  then have "l' = \<lparr>mutexLocked = False, usedRequests = 0, allowedRequests = 3, timeframeInterval = 5\<rparr>"
    by (cases l') simp
  with l' show ?thesis by (simp add: GetRequestLimit_def)
qed

section \<open>Shutdown\<close>

lemma window_elapses_Selecting:
  "scheduler s = Selecting tk \<Longrightarrow> \<not> mutexLocked (limiter s) \<Longrightarrow>
   window_elapses s = Inr (s\<lparr>limiter := (limiter s)\<lparr>usedRequests := 0\<rparr>\<rparr>)"
  by (simp add: window_elapses_def Clear_free)

lemma windows_elapse_Returned:
  "scheduler s = Returned \<Longrightarrow> windows_elapse k s = Inr s"
  by (induction k) (simp_all add: window_elapses_def)

text \<open>
  Claim C6. \<open>Shutdown\<close> on a limiter whose window goroutine is in its loop returns, ends
  that goroutine and changes no field of the limiter: \<open>GetRequestLimit()\<close>,
  \<open>GetRequestsAvailable()\<close> and \<open>GetTimeframeInterval()\<close> return what they returned
  before. Afterwards any number of elapsed windows leaves the state as it is (no automatic
  \<open>Clear\<close>), and a call of \<open>Clear\<close> or \<open>IncrementRequestsUsed\<close> has the outcome it
  has on the limiter that was not shut down.
\<close>

theorem Shutdown_keeps_counters:
  assumes "scheduler s = Selecting tk"
  shows "\<exists>s'. Shutdown s = Inr s'
           \<and> scheduler s' = Returned
           \<and> limiter s' = limiter s
           \<and> GetRequestLimit (limiter s') = GetRequestLimit (limiter s)
           \<and> GetRequestsAvailable (limiter s') = GetRequestsAvailable (limiter s)
           \<and> GetTimeframeInterval (limiter s') = GetTimeframeInterval (limiter s)
           \<and> (\<forall>k. windows_elapse k s' = Inr s')
           \<and> (\<forall>c. case sys_invoke c s of
                      Inl f \<Rightarrow> sys_invoke c s' = Inl f
                    | Inr (e, x) \<Rightarrow> sys_invoke c s' = Inr (e, x\<lparr>scheduler := Returned\<rparr>))"
proof -
  let ?s' = "s\<lparr>scheduler := Returned\<rparr>"
  from assms have 1: "Shutdown s = Inr ?s'" by (simp add: Shutdown_def)
  have 2: "\<forall>k. windows_elapse k ?s' = Inr ?s'" by (simp add: windows_elapse_Returned)
  have 3: "\<forall>c. case sys_invoke c s of
                      Inl f \<Rightarrow> sys_invoke c ?s' = Inl f
                    | Inr (e, x) \<Rightarrow> sys_invoke c ?s' = Inr (e, x\<lparr>scheduler := Returned\<rparr>)"
    by (auto simp: sys_invoke_def split: sum.splits)
  from 1 2 3 show ?thesis by simp
qed

theorem Shutdown_keeps_counters_witness:
  "scheduler \<lparr>limiter = \<lparr>mutexLocked = False, usedRequests = 2, allowedRequests = 3,
                           timeframeInterval = 3000000\<rparr>,
              scheduler = Selecting (Ticker 3000000)\<rparr> = Selecting (Ticker 3000000)
   \<and> Shutdown \<lparr>limiter = \<lparr>mutexLocked = False, usedRequests = 2, allowedRequests = 3,
                           timeframeInterval = 3000000\<rparr>,
              scheduler = Selecting (Ticker 3000000)\<rparr>
       = Inr \<lparr>limiter = \<lparr>mutexLocked = False, usedRequests = 2, allowedRequests = 3,
                           timeframeInterval = 3000000\<rparr>,
              scheduler = Returned\<rparr>
   \<and> windows_elapse 2 \<lparr>limiter = \<lparr>mutexLocked = False, usedRequests = 2, allowedRequests = 3,
                           timeframeInterval = 3000000\<rparr>,
              scheduler = Returned\<rparr>
       = Inr \<lparr>limiter = \<lparr>mutexLocked = False, usedRequests = 2, allowedRequests = 3,
                           timeframeInterval = 3000000\<rparr>,
              scheduler = Returned\<rparr>
   \<and> sys_invoke CallIncrement \<lparr>limiter = \<lparr>mutexLocked = False, usedRequests = 2, allowedRequests = 3,
                           timeframeInterval = 3000000\<rparr>,
              scheduler = Returned\<rparr>
       = Inr (None, \<lparr>limiter = \<lparr>mutexLocked = False, usedRequests = 3, allowedRequests = 3,
                           timeframeInterval = 3000000\<rparr>,
              scheduler = Returned\<rparr>)"
proof -
  let ?s = "\<lparr>limiter = \<lparr>mutexLocked = False, usedRequests = 2, allowedRequests = 3,
                           timeframeInterval = 3000000\<rparr>,
              scheduler = Selecting (Ticker 3000000)\<rparr>"
  have a: "scheduler ?s = Selecting (Ticker 3000000)" by simp
  have b: "sys_invoke CallIncrement ?s = Inr (None, ?s\<lparr>limiter := \<lparr>mutexLocked = False, usedRequests = 3, allowedRequests = 3,
                           timeframeInterval = 3000000\<rparr>\<rparr>)"
    by (simp add: sys_invoke_def Increment_free)
  from Shutdown_keeps_counters [OF a] obtain s' where s': "Shutdown ?s = Inr s'" "scheduler s' = Returned"
     "limiter s' = limiter ?s" "\<forall>k. windows_elapse k s' = Inr s'"
     "\<forall>c. case sys_invoke c ?s of
                      Inl f \<Rightarrow> sys_invoke c s' = Inl f
                    | Inr (e, x) \<Rightarrow> sys_invoke c s' = Inr (e, x\<lparr>scheduler := Returned\<rparr>)"
    by blast
  from s'(2,3) have e: "s' = ?s\<lparr>scheduler := Returned\<rparr>" by (cases s') simp
  from s'(5) b have "sys_invoke CallIncrement s' = Inr (None, ?s\<lparr>limiter := \<lparr>mutexLocked = False, usedRequests = 3, allowedRequests = 3,
                           timeframeInterval = 3000000\<rparr>, scheduler := Returned\<rparr>)"
    by (auto dest: spec [of _ CallIncrement])
  with s'(1,4) e show ?thesis by simp
qed

section \<open>Registry initialisation\<close>

text \<open>
  Claim C7. \<open>InitClientRateLimiterMap\<close> on the nil map makes an empty map and returns
  \<open>nil\<close>; on an existing map it returns \<open>ErrClientMapExists\<close> and leaves the map, with
  all its entries, as it is. It succeeds exactly on the nil map, so a call that follows
  another call always fails.
\<close>

theorem registry_init_once:
  "InitClientRateLimiterMap None = (None, Some Map.empty)
   \<and> InitClientRateLimiterMap (Some m) = (Some ErrClientMapExists, Some m)
   \<and> (fst (InitClientRateLimiterMap r) = None \<longleftrightarrow> r = None)
   \<and> InitClientRateLimiterMap (snd (InitClientRateLimiterMap r))
        = (Some ErrClientMapExists, snd (InitClientRateLimiterMap r))"
  by (cases r) (simp_all add: InitClientRateLimiterMap_def)

section \<open>The handler's three answers\<close>

text \<open>
  The sentence "an unknown \<open>clientId\<close> gets the body \<open>Not Found\<close>" of claim C8 fails on
  the request \<open>GET /unknown-id/requests-available\<close>: the body that \<open>http.Error\<close> writes
  is the message with a newline after it.
\<close>

theorem getAvailableRequests_body_counterexample:
  "getAvailableRequests
     (Some [''client-3'' \<mapsto> \<lparr>mutexLocked = False, usedRequests = 1, allowedRequests = 3,
                                timeframeInterval = 3000000\<rparr>])
     [''clientId'' \<mapsto> ''unknown-id'']
   \<noteq> \<lparr>status = 404, body = Text ''Not Found''\<rparr>"
  by (simp add: getAvailableRequests_def map_index_def http_Error_def HttpNotFound_def
      StatusNotFound_def)

text \<open>
  Claim C8, amended. \<open>getAvailableRequests\<close>: a missing or empty \<open>clientId\<close> gives status
  400 with the body \<open>Bad Request\<close> followed by a newline; a \<open>clientId\<close> that is not a
  key of the registry gives 404 with \<open>Not Found\<close> followed by a newline; a registered
  \<open>clientId\<close> gives 200 with the JSON object whose members \<open>limit\<close>, \<open>available\<close> and
  \<open>timeframe\<close> are \<open>GetRequestLimit()\<close>, \<open>GetRequestsAvailable()\<close> and
  \<open>GetTimeframeInterval()\<close> of that client's limiter.
\<close>

theorem getAvailableRequests_responses:
  "(vars ''clientId'' = None \<or> vars ''clientId'' = Some '''' \<longrightarrow>
      getAvailableRequests reg vars =
        \<lparr>status = 400, body = Text (''Bad Request'' @ [CHR 0x0A])\<rparr>)
   \<and> (vars ''clientId'' = Some cid \<and> cid \<noteq> '''' \<and> map_index reg cid = None \<longrightarrow>
      getAvailableRequests reg vars =
        \<lparr>status = 404, body = Text (''Not Found'' @ [CHR 0x0A])\<rparr>)
   \<and> (vars ''clientId'' = Some cid \<and> cid \<noteq> '''' \<and> map_index reg cid = Some l \<longrightarrow>
      getAvailableRequests reg vars =
        \<lparr>status = 200,
         body = Encoded (JObject [(''limit'', JNumber (sint (GetRequestLimit l))),
                                  (''available'', JNumber (sint (GetRequestsAvailable l))),
                                  (''timeframe'', JNumber (sint (GetTimeframeInterval l)))])\<rparr>)"
  by (auto simp: getAvailableRequests_def http_Error_def HttpBadRequest_def HttpNotFound_def
      StatusBadRequest_def StatusNotFound_def StatusOK_def json_Marshal_def)

theorem getAvailableRequests_responses_witness:
  "getAvailableRequests (Some [''client-3'' \<mapsto> \<lparr>mutexLocked = False, usedRequests = 1, allowedRequests = 3, timeframeInterval = 3000000\<rparr>]) Map.empty
     = \<lparr>status = 400, body = Text (''Bad Request'' @ [CHR 0x0A])\<rparr>
   \<and> getAvailableRequests (Some [''client-3'' \<mapsto> \<lparr>mutexLocked = False, usedRequests = 1, allowedRequests = 3, timeframeInterval = 3000000\<rparr>]) [''clientId'' \<mapsto> '''']
     = \<lparr>status = 400, body = Text (''Bad Request'' @ [CHR 0x0A])\<rparr>
   \<and> getAvailableRequests (Some [''client-3'' \<mapsto> \<lparr>mutexLocked = False, usedRequests = 1, allowedRequests = 3, timeframeInterval = 3000000\<rparr>]) [''clientId'' \<mapsto> ''unknown-id'']
     = \<lparr>status = 404, body = Text (''Not Found'' @ [CHR 0x0A])\<rparr>
   \<and> getAvailableRequests (Some [''client-3'' \<mapsto> \<lparr>mutexLocked = False, usedRequests = 1, allowedRequests = 3, timeframeInterval = 3000000\<rparr>]) [''clientId'' \<mapsto> ''client-3'']
     = \<lparr>status = 200,
         body = Encoded (JObject [(''limit'', JNumber 3), (''available'', JNumber 2),
                                  (''timeframe'', JNumber 3000000)])\<rparr>"
proof -
  let ?l = "\<lparr>mutexLocked = False, usedRequests = 1, allowedRequests = 3, timeframeInterval = 3000000\<rparr>"
  let ?reg = "Some [''client-3'' \<mapsto> ?l]"
  have 1: "getAvailableRequests ?reg Map.empty = \<lparr>status = 400, body = Text (''Bad Request'' @ [CHR 0x0A])\<rparr>"
    using getAvailableRequests_responses [of Map.empty ?reg] by simp
  have 2: "getAvailableRequests ?reg [''clientId'' \<mapsto> ''''] = \<lparr>status = 400, body = Text (''Bad Request'' @ [CHR 0x0A])\<rparr>"
    using getAvailableRequests_responses [of "[''clientId'' \<mapsto> '''']" ?reg] by simp
  have 3: "getAvailableRequests ?reg [''clientId'' \<mapsto> ''unknown-id''] = \<lparr>status = 404, body = Text (''Not Found'' @ [CHR 0x0A])\<rparr>"
    using getAvailableRequests_responses [of "[''clientId'' \<mapsto> ''unknown-id'']" ?reg "''unknown-id''"]
    by (simp add: map_index_def)
  have 4: "getAvailableRequests ?reg [''clientId'' \<mapsto> ''client-3'']
     = \<lparr>status = 200,
         body = Encoded (JObject [(''limit'', JNumber 3), (''available'', JNumber 2),
                                  (''timeframe'', JNumber 3000000)])\<rparr>"
    using getAvailableRequests_responses [of "[''clientId'' \<mapsto> ''client-3'']" ?reg "''client-3''" ?l]
    by (simp add: map_index_def GetRequestLimit_def GetRequestsAvailable_def GetTimeframeInterval_def)
  from 1 2 3 4 show ?thesis by blast
qed

section \<open>Construction with a bad timeframe\<close>

text \<open>
  The sentence "\<open>NewLimiter(n, t)\<close> with \<open>t \<le> 0\<close> panics" of claim C9 fails at
  \<open>t = -9223372036855\<close>: the product with \<open>time.Millisecond\<close> wraps around to the
  positive duration \<open>9223372036854551616\<close>, the ticker is created and the limiter runs.
\<close>

theorem NewLimiter_negative_timeframe_counterexample:
  "sint (- 9223372036855 :: go_int) \<le> 0
   \<and> NewLimiter 1 (- 9223372036855) =
       Inr \<lparr>limiter = \<lparr>mutexLocked = False, usedRequests = 0, allowedRequests = 1,
                         timeframeInterval = 9223372036854551616\<rparr>,
            scheduler = Selecting (Ticker 9223372036854551616)\<rparr>"
  by (simp add: NewLimiter_def startWindow_enter_def NewTicker_def Millisecond_def)

text \<open>
  Claim C9, amended. \<open>NewLimiter\<close> checks none of its arguments. It panics exactly
  when the 64-bit product \<open>timeframeMilliseconds * 1000000\<close> is not positive, whatever
  \<open>allowedRequests\<close> is, and otherwise returns the limiter with the quota as given.
  For \<open>-9223372036854 \<le> t \<le> 9223372036854\<close>, where the product does not overflow,
  it panics exactly when \<open>t \<le> 0\<close>.
\<close>

theorem NewLimiter_panics_iff:
  "(NewLimiter n t = Inl Panicked \<longleftrightarrow> sint (t * Millisecond) \<le> 0)
   \<and> (0 < sint (t * Millisecond) \<longrightarrow>
        NewLimiter n t =
          Inr \<lparr>limiter = \<lparr>mutexLocked = False, usedRequests = 0, allowedRequests = n,
                            timeframeInterval = t * Millisecond\<rparr>,
               scheduler = Selecting (Ticker (t * Millisecond))\<rparr>)
   \<and> (- 9223372036854 \<le> sint t \<and> sint t \<le> 9223372036854 \<longrightarrow>
        (NewLimiter n t = Inl Panicked \<longleftrightarrow> sint t \<le> 0))"
proof (intro conjI)
  show 1: "NewLimiter n t = Inl Panicked \<longleftrightarrow> sint (t * Millisecond) \<le> 0"
    by (simp add: NewLimiter_def startWindow_enter_def NewTicker_def Let_def)
  show "0 < sint (t * Millisecond) \<longrightarrow>
        NewLimiter n t =
          Inr \<lparr>limiter = \<lparr>mutexLocked = False, usedRequests = 0, allowedRequests = n,
                            timeframeInterval = t * Millisecond\<rparr>,
               scheduler = Selecting (Ticker (t * Millisecond))\<rparr>"
    by (simp add: NewLimiter_def startWindow_enter_def NewTicker_def Let_def)
  show "- 9223372036854 \<le> sint t \<and> sint t \<le> 9223372036854 \<longrightarrow>
        (NewLimiter n t = Inl Panicked \<longleftrightarrow> sint t \<le> 0)"
    using 1 by (auto simp: sint_ms)
qed

theorem NewLimiter_panics_iff_witness:
  "NewLimiter 3 0 = Inl Panicked \<and> NewLimiter 3 (- 5) = Inl Panicked
   \<and> NewLimiter (- 2) 7 =
       Inr \<lparr>limiter = \<lparr>mutexLocked = False, usedRequests = 0, allowedRequests = - 2,
                         timeframeInterval = 7000000\<rparr>,
            scheduler = Selecting (Ticker 7000000)\<rparr>"
proof -
  have 1: "NewLimiter 3 0 = Inl Panicked" using NewLimiter_panics_iff [of 3 0] by simp
  have 2: "NewLimiter 3 (- 5) = Inl Panicked" using NewLimiter_panics_iff [of 3 "- 5"] by simp
  have 3: "NewLimiter (- 2) 7 =
       Inr \<lparr>limiter = \<lparr>mutexLocked = False, usedRequests = 0, allowedRequests = - 2,
                         timeframeInterval = 7000000\<rparr>,
            scheduler = Selecting (Ticker 7000000)\<rparr>"
    using NewLimiter_panics_iff [of "- 2" 7] by (simp add: Millisecond_def)
  from 1 2 3 show ?thesis by blast
qed

section \<open>Beyond the quota\<close>

text \<open>
  Claim C10. The exhaustion test is an equality. In a state with
  \<open>usedRequests > allowedRequests\<close> a call of \<open>IncrementRequestsUsed\<close> that finds the
  mutex free returns \<open>nil\<close> and adds one to \<open>usedRequests\<close>, which stays above the quota
  unless it was the largest \<open>int\<close>; an error is returned only when
  \<open>usedRequests = allowedRequests\<close>. Such states are reached: \<open>NewLimiter\<close> with a
  negative quota returns a limiter whose \<open>usedRequests = 0\<close> is above the quota.
\<close>

theorem increment_past_quota:
  "(sint (allowedRequests l) < sint (usedRequests l) \<and> \<not> mutexLocked l \<longrightarrow>
      IncrementRequestsUsed l = Inr (None, l\<lparr>usedRequests := usedRequests l + 1\<rparr>)
      \<and> (sint (usedRequests l) < 2 ^ 63 - 1 \<longrightarrow>
           sint (allowedRequests l) < sint (usedRequests l + 1)))
   \<and> (\<forall>e l'. IncrementRequestsUsed l = Inr (Some e, l') \<longrightarrow>
         e = ErrTooManyRequests \<and> usedRequests l = allowedRequests l)
   \<and> (\<forall>s. NewLimiter n t = Inr s \<and> sint n < 0 \<longrightarrow>
         sint (allowedRequests (limiter s)) < sint (usedRequests (limiter s))
         \<and> \<not> mutexLocked (limiter s))"
proof (intro conjI)
  show "sint (allowedRequests l) < sint (usedRequests l) \<and> \<not> mutexLocked l \<longrightarrow>
      IncrementRequestsUsed l = Inr (None, l\<lparr>usedRequests := usedRequests l + 1\<rparr>)
      \<and> (sint (usedRequests l) < 2 ^ 63 - 1 \<longrightarrow>
           sint (allowedRequests l) < sint (usedRequests l + 1))"
  proof
    assume a: "sint (allowedRequests l) < sint (usedRequests l) \<and> \<not> mutexLocked l"
    then have ne: "usedRequests l \<noteq> allowedRequests l" by auto
    have s: "sint (usedRequests l) < 2 ^ 63 - 1 \<Longrightarrow>
             sint (usedRequests l + 1) = sint (usedRequests l) + 1"
      using sint_ge [of "usedRequests l"]
      by (simp add: sint_word_ariths signed_take_bit_int_eq_self)
    from a ne s show "IncrementRequestsUsed l = Inr (None, l\<lparr>usedRequests := usedRequests l + 1\<rparr>)
      \<and> (sint (usedRequests l) < 2 ^ 63 - 1 \<longrightarrow>
           sint (allowedRequests l) < sint (usedRequests l + 1))"
      by (simp add: Increment_free)
  qed
  show "\<forall>e l'. IncrementRequestsUsed l = Inr (Some e, l') \<longrightarrow>
         e = ErrTooManyRequests \<and> usedRequests l = allowedRequests l"
    by (auto simp: IncrementRequestsUsed_def Lock_def Unlock_def split: if_splits)
  show "\<forall>s. NewLimiter n t = Inr s \<and> sint n < 0 \<longrightarrow>
         sint (allowedRequests (limiter s)) < sint (usedRequests (limiter s))
         \<and> \<not> mutexLocked (limiter s)"
    by (auto dest: NewLimiter_Inr)
qed

theorem increment_past_quota_witness:
  "NewLimiter (- 1) 1 =
       Inr \<lparr>limiter = \<lparr>mutexLocked = False, usedRequests = 0, allowedRequests = - 1,
                         timeframeInterval = 1000000\<rparr>,
            scheduler = Selecting (Ticker 1000000)\<rparr>
   \<and> sint (- 1 :: go_int) < sint (0 :: go_int)
   \<and> IncrementRequestsUsed \<lparr>mutexLocked = False, usedRequests = 0, allowedRequests = - 1,
                         timeframeInterval = 1000000\<rparr>
      = Inr (None, \<lparr>mutexLocked = False, usedRequests = 1, allowedRequests = - 1,
                         timeframeInterval = 1000000\<rparr>)
   \<and> IncrementRequestsUsed \<lparr>mutexLocked = False, usedRequests = 1, allowedRequests = - 1,
                         timeframeInterval = 1000000\<rparr>
      = Inr (None, \<lparr>mutexLocked = False, usedRequests = 2, allowedRequests = - 1,
                         timeframeInterval = 1000000\<rparr>)"
proof -
  let ?l0 = "\<lparr>mutexLocked = False, usedRequests = 0, allowedRequests = - 1,
                         timeframeInterval = 1000000 :: duration\<rparr>"
  let ?l1 = "\<lparr>mutexLocked = False, usedRequests = 1, allowedRequests = - 1,
                         timeframeInterval = 1000000 :: duration\<rparr>"
  have n: "NewLimiter (- 1) 1 = Inr \<lparr>limiter = ?l0, scheduler = Selecting (Ticker 1000000)\<rparr>"
    by (simp add: NewLimiter_def startWindow_enter_def NewTicker_def Millisecond_def)
  have 0: "IncrementRequestsUsed ?l0 = Inr (None, ?l0\<lparr>usedRequests := usedRequests ?l0 + 1\<rparr>)"
    using increment_past_quota [of ?l0] by simp
  have 1: "IncrementRequestsUsed ?l1 = Inr (None, ?l1\<lparr>usedRequests := usedRequests ?l1 + 1\<rparr>)"
    using increment_past_quota [of ?l1] by simp
  from n 0 1 show ?thesis by simp
qed

section \<open>Two concurrent callers\<close>

text \<open>One caller alone, run statement by statement, is the sequential function.\<close>

lemma single_caller_agrees:
  assumes "\<not> mutexLocked l"
  shows "IncrementRequestsUsed l = Inr (e, l') \<longleftrightarrow>
         (if usedRequests l = allowedRequests l
          then run_schedule [0] \<lparr>shared = l, callers = [AtCheck]\<rparr>
                 = Some \<lparr>shared = l', callers = [Finished e]\<rparr>
          else run_schedule [0, 0, 0, 0] \<lparr>shared = l, callers = [AtCheck]\<rparr>
                 = Some \<lparr>shared = l', callers = [Finished e]\<rparr>)"
  using assms
  by (auto simp: IncrementRequestsUsed_def caller_step_def Lock_def Unlock_def)

text \<open>
  Claim C4. The comparison is not inside the critical section. With quota 1 and two
  callers, the schedule in which both callers make the comparison before either takes
  the lock lets both return \<open>nil\<close> and leaves \<open>usedRequests = 2\<close>, above the quota.
\<close>

theorem concurrent_increment_overshoots:
  "NewLimiter 1 1 =
     Inr \<lparr>limiter = \<lparr>mutexLocked = False, usedRequests = 0, allowedRequests = 1,
                       timeframeInterval = 1000000\<rparr>,
          scheduler = Selecting (Ticker 1000000)\<rparr>
   \<and> run_schedule [0, 1, 0, 0, 0, 1, 1, 1]
        \<lparr>shared = \<lparr>mutexLocked = False, usedRequests = 0, allowedRequests = 1,
                    timeframeInterval = 1000000\<rparr>,
         callers = [AtCheck, AtCheck]\<rparr>
      = Some \<lparr>shared = \<lparr>mutexLocked = False, usedRequests = 2, allowedRequests = 1,
                         timeframeInterval = 1000000\<rparr>,
              callers = [Finished None, Finished None]\<rparr>
   \<and> sint (1 :: go_int) < sint (2 :: go_int)"
  by (simp add: NewLimiter_def startWindow_enter_def NewTicker_def Millisecond_def
      caller_step_def Lock_def Unlock_def)

end
